theory Spec2Isabelle
  imports Complex_Main "HOL-Library.AList"
begin

section \<open>Tag configuration of the AI tagging plugin\<close>

text \<open>
  A shallow embedding of \<^verbatim>\<open>src/backend/plugins/skier_aitagging_plugin/tag_config.py\<close>:
  the settings records, the value parsers, the row parser, the override merge, the
  loader, resolution and the cached configuration store.

  Modelling decisions.
  \<^item> A Python \<^verbatim>\<open>str\<close> is a \<open>string\<close>; a \<open>char\<close> stands for the code point of the
    same number, so the model covers the strings whose code points are below 256.
  \<^item> A Python \<^verbatim>\<open>float\<close> is a type parameter \<open>'f\<close>: the code only stores, copies and
    compares floats with \<^verbatim>\<open>None\<close>. The built-in \<^verbatim>\<open>float(text)\<close> is a parameter
    \<open>to_float\<close> of the parsers, \<open>None\<close> standing for its \<^verbatim>\<open>ValueError\<close>.
  \<^item> \<^verbatim>\<open>X | None\<close> is \<open>X option\<close>.
  \<^item> \<^verbatim>\<open>TagSettings\<close> objects are mutated in place and shared by reference, so they
    live in an explicit store (a list of objects, an address being an index).
  \<^item> Logging has no effect on any value and is left out.
\<close>

subsection \<open>Strings\<close>

text \<open>\<^verbatim>\<open>str.strip()\<close> removes the white space of Python at both ends; below 256 these are
  the code points 9 to 13, 28 to 32, 133 and 160.\<close>

definition isspace :: "char \<Rightarrow> bool" where
  "isspace c =
     (let n = (of_char c :: nat)
      in (9 \<le> n \<and> n \<le> 13) \<or> (28 \<le> n \<and> n \<le> 32) \<or> n = 133 \<or> n = 160)"

definition strip :: "string \<Rightarrow> string" where
  "strip s = rev (dropWhile isspace (rev (dropWhile isspace s)))"

text \<open>\<^verbatim>\<open>str.lower()\<close>: below 256 the upper-case letters are A to Z and the code points
  192 to 222 without 215, each 32 below its lower-case letter.\<close>

definition lower_char :: "char \<Rightarrow> char" where
  "lower_char c =
     (let n = (of_char c :: nat)
      in if (65 \<le> n \<and> n \<le> 90) \<or> (192 \<le> n \<and> n \<le> 222 \<and> n \<noteq> 215)
         then char_of (n + 32) else c)"

definition lower :: "string \<Rightarrow> string" where
  "lower s = map lower_char s"

subsection \<open>The data model\<close>

type_synonym 'f merge_tuple = "'f option \<times> 'f option \<times> 'f option \<times> 'f option \<times> 'f option"

record 'f TagSettings =
  tag_name :: string
  stash_name :: "string option"
  markers_enabled :: bool
  scene_tag_enabled :: bool
  image_enabled :: bool
  required_scene_tag_duration :: "'f option"
  min_marker_duration :: "'f option"
  max_gap :: "'f option"
  merge_strategy :: string
  merge_params :: "'f merge_tuple"

text \<open>The fields of \<^verbatim>\<open>TagSettingsOverride\<close> carry the prefix \<open>ov_\<close>, since a field name
  belongs to one record.\<close>

record 'f TagSettingsOverride =
  ov_stash_name :: "string option"
  ov_markers_enabled :: "bool option"
  ov_scene_tag_enabled :: "bool option"
  ov_image_enabled :: "bool option"
  ov_required_scene_tag_duration :: "'f option"
  ov_min_marker_duration :: "'f option"
  ov_max_gap :: "'f option"
  ov_merge_strategy :: "string option"
  ov_merge_params :: "'f merge_tuple"

definition base_settings :: "'f TagSettings" where
  "base_settings =
     \<lparr>tag_name = ''__global__'',
      stash_name = None,
      markers_enabled = True,
      scene_tag_enabled = True,
      image_enabled = False,
      required_scene_tag_duration = None,
      min_marker_duration = None,
      max_gap = None,
      merge_strategy = ''default'',
      merge_params = (None, None, None, None, None)\<rparr>"

text \<open>\<^verbatim>\<open>TagSettingsOverride()\<close>: the dataclass defaults.\<close>

definition empty_override :: "'f TagSettingsOverride" where
  "empty_override =
     \<lparr>ov_stash_name = None,
      ov_markers_enabled = None,
      ov_scene_tag_enabled = None,
      ov_image_enabled = None,
      ov_required_scene_tag_duration = None,
      ov_min_marker_duration = None,
      ov_max_gap = None,
      ov_merge_strategy = None,
      ov_merge_params = (None, None, None, None, None)\<rparr>"

subsection \<open>Value parsers\<close>

text \<open>A cell of a row is a \<^verbatim>\<open>str\<close>, or \<^verbatim>\<open>None\<close> where the row is shorter than the
  header, hence a \<open>string option\<close>; the \<^verbatim>\<open>isinstance\<close> branches for other types of value
  are never taken on such cells.\<close>

definition normalize_key :: "string \<Rightarrow> string" where
  "normalize_key key =
     (let key = lower (strip key);
          key = filter (\<lambda>c. c \<noteq> CHR '' '') key;
          key = filter (\<lambda>c. c \<noteq> CHR ''-'') key;
          key = filter (\<lambda>c. c \<noteq> CHR ''_'') key
      in key)"

definition normalize_string :: "string option \<Rightarrow> string option" where
  "normalize_string v =
     (case v of
        None \<Rightarrow> None
      | Some s \<Rightarrow> (let result = strip s in if result \<noteq> [] then Some result else None))"

definition parse_bool :: "string option \<Rightarrow> bool option" where
  "parse_bool v =
     (case v of
        None \<Rightarrow> None
      | Some s \<Rightarrow>
          (let text = lower (strip s)
           in if text = ''1'' \<or> text = ''true'' \<or> text = ''yes'' \<or> text = ''y'' then Some True
              else if text = ''0'' \<or> text = ''false'' \<or> text = ''no'' \<or> text = ''n'' then Some False
              else None))"

definition parse_float :: "(string \<Rightarrow> 'f option) \<Rightarrow> string option \<Rightarrow> 'f option" where
  "parse_float to_float v =
     (case v of
        None \<Rightarrow> None
      | Some s \<Rightarrow> (let text = strip s in if text = [] then None else to_float text))"

subsection \<open>Override merge\<close>

definition tuple_list :: "'f merge_tuple \<Rightarrow> 'f option list" where
  "tuple_list t = (case t of (a, b, c, d, e) \<Rightarrow> [a, b, c, d, e])"

definition list_tuple :: "'f option list \<Rightarrow> 'f merge_tuple" where
  "list_tuple xs = (xs ! 0, xs ! 1, xs ! 2, xs ! 3, xs ! 4)"

text \<open>The loop of lines 248 to 251 over \<^verbatim>\<open>enumerate(override.merge_params)\<close>. Both tuples
  have five positions, so every index written is in range.\<close>

definition merge_positions :: "'f option list \<Rightarrow> 'f option list \<Rightarrow> 'f option list" where
  "merge_positions values merged =
     fold (\<lambda>(idx, v) merged. case v of None \<Rightarrow> merged | Some x \<Rightarrow> merged[idx := Some x])
       (enumerate 0 values) merged"

text \<open>\<^verbatim>\<open>_apply_override(base, override)\<close> assigns to the fields of \<open>base\<close>; the function
  returns the object as the assignments leave it.\<close>

definition apply_override :: "'f TagSettings \<Rightarrow> 'f TagSettingsOverride \<Rightarrow> 'f TagSettings" where
  "apply_override base override =
     (let base = (case ov_stash_name override of
                    None \<Rightarrow> base
                  | Some s \<Rightarrow> base\<lparr>stash_name := (if s \<noteq> [] then Some s else None)\<rparr>);
          base = (case ov_markers_enabled override of
                    None \<Rightarrow> base | Some b \<Rightarrow> base\<lparr>markers_enabled := b\<rparr>);
          base = (case ov_scene_tag_enabled override of
                    None \<Rightarrow> base | Some b \<Rightarrow> base\<lparr>scene_tag_enabled := b\<rparr>);
          base = (case ov_image_enabled override of
                    None \<Rightarrow> base | Some b \<Rightarrow> base\<lparr>image_enabled := b\<rparr>);
          base = (case ov_required_scene_tag_duration override of
                    None \<Rightarrow> base | Some x \<Rightarrow> base\<lparr>required_scene_tag_duration := Some x\<rparr>);
          base = (case ov_min_marker_duration override of
                    None \<Rightarrow> base | Some x \<Rightarrow> base\<lparr>min_marker_duration := Some x\<rparr>);
          base = (case ov_max_gap override of
                    None \<Rightarrow> base | Some x \<Rightarrow> base\<lparr>max_gap := Some x\<rparr>);
          base = (case ov_merge_strategy override of
                    None \<Rightarrow> base | Some s \<Rightarrow> base\<lparr>merge_strategy := s\<rparr>);
          base = (if tuple_list (ov_merge_params override) \<noteq> []
                  then base\<lparr>merge_params :=
                         list_tuple (merge_positions (tuple_list (ov_merge_params override))
                                       (tuple_list (merge_params base)))\<rparr>
                  else base)
      in base)"

subsection \<open>The store of settings objects\<close>

type_synonym addr = nat

type_synonym 'f heap = "'f TagSettings list"

text \<open>Creating an object appends it to the store; its address is its index.\<close>

definition alloc :: "'f TagSettings \<Rightarrow> 'f heap \<Rightarrow> addr \<times> 'f heap" where
  "alloc obj h = (length h, h @ [obj])"

text \<open>\<^verbatim>\<open>_apply_override\<close> called on a reference: the object at \<open>a\<close> is updated in place.\<close>

definition apply_override_at :: "addr \<Rightarrow> 'f TagSettingsOverride \<Rightarrow> 'f heap \<Rightarrow> 'f heap" where
  "apply_override_at a override h = h[a := apply_override (h ! a) override]"

subsection \<open>Row parser\<close>

text \<open>A raw row is the dictionary that \<^verbatim>\<open>csv.DictReader\<close> yields, in iteration order:
  the keys are the header cells, or \<^verbatim>\<open>None\<close> for the surplus cells of a long row (whose
  value the parser never reads). A dictionary is an association list with distinct keys;
  \<open>AList.update\<close> is the assignment \<^verbatim>\<open>d[k] = v\<close>.\<close>

type_synonym raw_row = "(string option \<times> string option) list"

definition normalize_row :: "raw_row \<Rightarrow> (string \<times> string option) list" where
  "normalize_row raw_row =
     fold (\<lambda>(key, v) normalized.
             case key of
               None \<Rightarrow> normalized
             | Some k \<Rightarrow> AList.update (normalize_key k) (map_option strip v) normalized)
       raw_row []"

text \<open>\<^verbatim>\<open>d.get(k)\<close> on a dictionary whose values may be \<^verbatim>\<open>None\<close>.\<close>

definition dict_get :: "(string \<times> string option) list \<Rightarrow> string \<Rightarrow> string option" where
  "dict_get d k = (case map_of d k of None \<Rightarrow> None | Some v \<Rightarrow> v)"

definition is_blank :: "(string \<times> string option) list \<Rightarrow> bool" where
  "is_blank normalized =
     (\<not> list_ex (\<lambda>(k, v). case v of None \<Rightarrow> False | Some s \<Rightarrow> strip s \<noteq> []) normalized)"

text \<open>Lines 208 and 209: \<^verbatim>\<open>normalized.get("tagname") or normalized.get("tag")\<close>, trimmed.\<close>

definition tag_value_of :: "(string \<times> string option) list \<Rightarrow> string" where
  "tag_value_of normalized =
     (let tag_value = (case dict_get normalized ''tagname'' of
                         None \<Rightarrow> dict_get normalized ''tag''
                       | Some s \<Rightarrow> if s \<noteq> [] then Some s else dict_get normalized ''tag'')
      in case tag_value of None \<Rightarrow> [] | Some s \<Rightarrow> strip s)"

definition parse_row ::
  "(string \<Rightarrow> 'f option) \<Rightarrow> nat \<Rightarrow> raw_row \<Rightarrow> string option \<times> 'f TagSettingsOverride option" where
  "parse_row to_float row_number raw_row =
     (let normalized = normalize_row raw_row
      in if is_blank normalized then (None, None)
         else
           (let tag_value = tag_value_of normalized;
                override = empty_override;
                override = override\<lparr>ov_stash_name := normalize_string (dict_get normalized ''stashname'')\<rparr>;
                override = override\<lparr>ov_markers_enabled := parse_bool (dict_get normalized ''markersenabled'')\<rparr>;
                override = override\<lparr>ov_scene_tag_enabled := parse_bool (dict_get normalized ''scenetagenabled'')\<rparr>;
                override = override\<lparr>ov_image_enabled := parse_bool (dict_get normalized ''imageenabled'')\<rparr>;
                override = override\<lparr>ov_required_scene_tag_duration :=
                             parse_float to_float (dict_get normalized ''requiredscenetagduration'')\<rparr>;
                override = override\<lparr>ov_min_marker_duration :=
                             parse_float to_float (dict_get normalized ''minmarkerduration'')\<rparr>;
                override = override\<lparr>ov_max_gap := parse_float to_float (dict_get normalized ''maxgap'')\<rparr>;
                override = override\<lparr>ov_merge_strategy := normalize_string (dict_get normalized ''mergestrategy'')\<rparr>;
                override = override\<lparr>ov_merge_params :=
                             (parse_float to_float (dict_get normalized ''markermergeparam1''),
                              parse_float to_float (dict_get normalized ''markermergeparam2''),
                              parse_float to_float (dict_get normalized ''markermergeparam3''),
                              parse_float to_float (dict_get normalized ''markermergeparam4''),
                              parse_float to_float (dict_get normalized ''markermergeparam5''))\<rparr>
            in if tag_value = [] \<or> tag_value = ''*'' \<or> tag_value = ''default''
                  \<or> tag_value = ''__default__''
               then (None, Some override)
               else (Some (lower tag_value), Some override)))"

subsection \<open>Configuration loader\<close>

record 'f TagConfiguration =
  source_path :: string
  global_settings :: addr
  overrides :: "(string \<times> 'f TagSettingsOverride) list"
  tag_suffix :: string

text \<open>What the loader reads from outside. Iterating the \<^verbatim>\<open>csv.DictReader\<close> either yields
  the next row or raises (a decoding error in a later block of the file, a \<^verbatim>\<open>csv.Error\<close>
  on an oversized field); the reader is the list of these events, the header row included
  in the first of them. A file either fails to open or gives such a reader.\<close>

datatype read_event = Yield raw_row | Raise

datatype csv_file = OpenFails | Opened "read_event list"

text \<open>The plugin setting \<^verbatim>\<open>tag_suffix\<close>: the query raises, finds no row, or finds a row
  with its \<^verbatim>\<open>value\<close> and \<^verbatim>\<open>default_value\<close> (strings or \<^verbatim>\<open>None\<close>).\<close>

datatype setting_lookup = LookupRaises | NoRow | SettingRow "string option" "string option"

record environment =
  plugin_root :: string
  files :: "string \<rightharpoonup> csv_file"
  copy_succeeds :: bool
  suffix_lookup :: setting_lookup

definition CONFIG_FILENAME :: string where
  "CONFIG_FILENAME = ''tag_settings.csv''"

definition TEMPLATE_FILENAME :: string where
  "TEMPLATE_FILENAME = ''tag_settings.template.csv''"

definition path_join :: "string \<Rightarrow> string \<Rightarrow> string" where
  "path_join dir name = dir @ ''/'' @ name"

definition get_tag_suffix :: "setting_lookup \<Rightarrow> string" where
  "get_tag_suffix lookup =
     (case lookup of
        LookupRaises \<Rightarrow> ''_AI''
      | NoRow \<Rightarrow> ''_AI''
      | SettingRow v default_value \<Rightarrow>
          (case (case v of Some x \<Rightarrow> Some x | None \<Rightarrow> default_value) of
             Some x \<Rightarrow> x
           | None \<Rightarrow> ''_AI''))"

text \<open>The loop of lines 159 to 166 inside the \<^verbatim>\<open>try\<close> of line 154. The state is the store
  (the global settings object at \<open>g\<close> is mutated in place) and the \<^verbatim>\<open>overrides\<close>
  dictionary. The first component of the result tells whether the loop ended by an
  exception; the state is the one the \<^verbatim>\<open>except\<close> clause of line 167 finds, and that
  clause only logs.\<close>

datatype outcome = Completed | Raised

fun load_rows ::
  "(string \<Rightarrow> 'f option) \<Rightarrow> nat \<Rightarrow> read_event list \<Rightarrow> addr \<Rightarrow>
   'f heap \<times> (string \<times> 'f TagSettingsOverride) list \<Rightarrow>
   outcome \<times> 'f heap \<times> (string \<times> 'f TagSettingsOverride) list" where
  "load_rows to_float idx [] g st = (Completed, st)"
| "load_rows to_float idx (Raise # events) g st = (Raised, st)"
| "load_rows to_float idx (Yield raw_row # events) g (h, ovs) =
     (case parse_row to_float idx raw_row of
        (tag_key, None) \<Rightarrow> load_rows to_float (idx + 1) events g (h, ovs)
      | (None, Some override) \<Rightarrow>
          load_rows to_float (idx + 1) events g (apply_override_at g override h, ovs)
      | (Some k, Some override) \<Rightarrow>
          load_rows to_float (idx + 1) events g (h, AList.update k override ovs))"

text \<open>\<^verbatim>\<open>TagConfiguration.load(base_path)\<close>. Copying the template makes the configuration
  file exist with the template's content; a failed copy leaves the files as they were.\<close>

definition load ::
  "(string \<Rightarrow> 'f option) \<Rightarrow> environment \<Rightarrow> string option \<Rightarrow> 'f heap \<Rightarrow>
   'f TagConfiguration \<times> 'f heap" where
  "load to_float env base_path h =
     (let config_root = (case base_path of None \<Rightarrow> plugin_root env | Some p \<Rightarrow> p);
          config_path = path_join config_root CONFIG_FILENAME;
          (global_ref, h) = alloc base_settings h;
          suffix = get_tag_suffix (suffix_lookup env);
          fs = (if files env config_path = None
                then (let template_path = path_join (plugin_root env) TEMPLATE_FILENAME
                      in case files env template_path of
                           None \<Rightarrow> files env
                         | Some t \<Rightarrow>
                             if copy_succeeds env then (files env)(config_path \<mapsto> t)
                             else files env)
                else files env);
          (h, ovs) =
             (case fs config_path of
                None \<Rightarrow> (h, [])
              | Some OpenFails \<Rightarrow> (h, [])
              | Some (Opened events) \<Rightarrow> snd (load_rows to_float 2 events global_ref (h, [])))
      in (\<lparr>source_path = config_path, global_settings = global_ref,
           overrides = ovs, tag_suffix = suffix\<rparr>, h))"

subsection \<open>Resolution\<close>

text \<open>\<^verbatim>\<open>TagConfiguration.resolve(tag_name)\<close>. \<^verbatim>\<open>dataclasses.replace\<close> creates a new object,
  and every later assignment goes to that object; the result is its address and the store
  after the call. An override found in the dictionary is an object and hence truthy.\<close>

definition resolve :: "'f TagConfiguration \<Rightarrow> string option \<Rightarrow> 'f heap \<Rightarrow> addr \<times> 'f heap" where
  "resolve self name h =
     (let normalized = strip (case name of None \<Rightarrow> [] | Some s \<Rightarrow> s);
          g = h ! global_settings self;
          (effective, h) =
             alloc (g\<lparr>tag_name := (if normalized \<noteq> [] then normalized else tag_name g)\<rparr>) h;
          override = (if normalized \<noteq> [] then map_of (overrides self) (lower normalized)
                      else None);
          h = (case override of None \<Rightarrow> h | Some ov \<Rightarrow> apply_override_at effective ov h);
          h = (if stash_name (h ! effective) = None \<or> stash_name (h ! effective) = Some []
               then h[effective := (h ! effective)
                        \<lparr>stash_name :=
                           Some (if normalized \<noteq> [] then normalized @ tag_suffix self
                                 else normalized)\<rparr>]
               else h);
          h = (if merge_strategy (h ! effective) = []
               then h[effective := (h ! effective)\<lparr>merge_strategy := ''default''\<rparr>]
               else h)
      in (effective, h))"

subsection \<open>Configuration store\<close>

text \<open>The module state: the cached snapshot \<^verbatim>\<open>_CONFIG_CACHE\<close>, with the store of settings
  objects. Calls are taken one after the other, so the lock has no effect; the second
  test of the cache under the lock is kept as written.\<close>

record 'f module_state =
  CONFIG_CACHE :: "'f TagConfiguration option"
  objects :: "'f heap"

definition get_tag_configuration ::
  "(string \<Rightarrow> 'f option) \<Rightarrow> environment \<Rightarrow> bool \<Rightarrow> 'f module_state \<Rightarrow>
   'f TagConfiguration \<times> 'f module_state" where
  "get_tag_configuration to_float env reload s =
     (if reload
      then (let (cfg, h) = load to_float env None (objects s)
            in (cfg, \<lparr>CONFIG_CACHE = Some cfg, objects = h\<rparr>))
      else
        (case CONFIG_CACHE s of
           Some cfg \<Rightarrow> (cfg, s)
         | None \<Rightarrow>
             (case CONFIG_CACHE s of
                None \<Rightarrow>
                  (let (cfg, h) = load to_float env None (objects s)
                   in (cfg, \<lparr>CONFIG_CACHE = Some cfg, objects = h\<rparr>))
              | Some cfg \<Rightarrow> (cfg, s))))"

section \<open>Properties\<close>

subsection \<open>Override merge: one field at a time\<close>

lemma apply_override_tag_name:
  "tag_name (apply_override base ov) = tag_name base"
  by (simp add: apply_override_def Let_def split: option.splits)

lemma apply_override_stash_name:
  "stash_name (apply_override base ov) =
     (case ov_stash_name ov of
        None \<Rightarrow> stash_name base
      | Some s \<Rightarrow> if s = [] then None else Some s)"
  by (simp add: apply_override_def Let_def split: option.splits)

lemma apply_override_markers_enabled:
  "markers_enabled (apply_override base ov) =
     (case ov_markers_enabled ov of None \<Rightarrow> markers_enabled base | Some b \<Rightarrow> b)"
  by (simp add: apply_override_def Let_def split: option.splits)

lemma apply_override_scene_tag_enabled:
  "scene_tag_enabled (apply_override base ov) =
     (case ov_scene_tag_enabled ov of None \<Rightarrow> scene_tag_enabled base | Some b \<Rightarrow> b)"
  by (simp add: apply_override_def Let_def split: option.splits)

lemma apply_override_image_enabled:
  "image_enabled (apply_override base ov) =
     (case ov_image_enabled ov of None \<Rightarrow> image_enabled base | Some b \<Rightarrow> b)"
  by (simp add: apply_override_def Let_def split: option.splits)

lemma apply_override_required_scene_tag_duration:
  "required_scene_tag_duration (apply_override base ov) =
     (case ov_required_scene_tag_duration ov of None \<Rightarrow> required_scene_tag_duration base | Some x \<Rightarrow> Some x)"
  by (simp add: apply_override_def Let_def split: option.splits)

lemma apply_override_min_marker_duration:
  "min_marker_duration (apply_override base ov) =
     (case ov_min_marker_duration ov of None \<Rightarrow> min_marker_duration base | Some x \<Rightarrow> Some x)"
  by (simp add: apply_override_def Let_def split: option.splits)

lemma apply_override_max_gap:
  "max_gap (apply_override base ov) =
     (case ov_max_gap ov of None \<Rightarrow> max_gap base | Some x \<Rightarrow> Some x)"
  by (simp add: apply_override_def Let_def split: option.splits)

lemma apply_override_merge_strategy:
  "merge_strategy (apply_override base ov) =
     (case ov_merge_strategy ov of None \<Rightarrow> merge_strategy base | Some s \<Rightarrow> s)"
  by (simp add: apply_override_def Let_def split: option.splits)

lemma apply_override_merge_params:
  "merge_params (apply_override base ov) =
     list_tuple (merge_positions (tuple_list (ov_merge_params ov))
                   (tuple_list (merge_params base)))"
  by (simp add: apply_override_def Let_def tuple_list_def split: option.splits prod.splits)

lemma merge_positions_five:
  "merge_positions [o0, o1, o2, o3, o4] [b0, b1, b2, b3, b4] =
     [case o0 of None \<Rightarrow> b0 | Some x \<Rightarrow> Some x,
      case o1 of None \<Rightarrow> b1 | Some x \<Rightarrow> Some x,
      case o2 of None \<Rightarrow> b2 | Some x \<Rightarrow> Some x,
      case o3 of None \<Rightarrow> b3 | Some x \<Rightarrow> Some x,
      case o4 of None \<Rightarrow> b4 | Some x \<Rightarrow> Some x]"
  by (cases o0; cases o1; cases o2; cases o3; cases o4; simp add: merge_positions_def)

text \<open>
  Claim C4. For every base \<open>TagSettings\<close> and every \<open>TagSettingsOverride\<close>,
  \<open>apply_override\<close> replaces a scalar field of the base exactly when the override's
  value for it is not \<open>None\<close> (so \<open>False\<close> and \<open>0\<close> replace) and leaves it as it was
  otherwise; the one exception is an override \<open>stash_name\<close> that is the empty string,
  which sets the base's \<open>stash_name\<close> to \<open>None\<close>.
\<close>

theorem apply_override_scalar_fields:
  "stash_name (apply_override base ov) =
     (case ov_stash_name ov of
        None \<Rightarrow> stash_name base
      | Some s \<Rightarrow> if s = [] then None else Some s)
   \<and> markers_enabled (apply_override base ov) =
     (case ov_markers_enabled ov of None \<Rightarrow> markers_enabled base | Some b \<Rightarrow> b)
   \<and> scene_tag_enabled (apply_override base ov) =
     (case ov_scene_tag_enabled ov of None \<Rightarrow> scene_tag_enabled base | Some b \<Rightarrow> b)
   \<and> image_enabled (apply_override base ov) =
     (case ov_image_enabled ov of None \<Rightarrow> image_enabled base | Some b \<Rightarrow> b)
   \<and> required_scene_tag_duration (apply_override base ov) =
     (case ov_required_scene_tag_duration ov of
        None \<Rightarrow> required_scene_tag_duration base
      | Some x \<Rightarrow> Some x)
   \<and> min_marker_duration (apply_override base ov) =
     (case ov_min_marker_duration ov of None \<Rightarrow> min_marker_duration base | Some x \<Rightarrow> Some x)
   \<and> max_gap (apply_override base ov) =
     (case ov_max_gap ov of None \<Rightarrow> max_gap base | Some x \<Rightarrow> Some x)
   \<and> merge_strategy (apply_override base ov) =
     (case ov_merge_strategy ov of None \<Rightarrow> merge_strategy base | Some s \<Rightarrow> s)"
  by (simp only: apply_override_stash_name apply_override_markers_enabled
        apply_override_scene_tag_enabled apply_override_image_enabled
        apply_override_required_scene_tag_duration apply_override_min_marker_duration
        apply_override_max_gap apply_override_merge_strategy simp_thms)

text \<open>An override that sets \<open>markers_enabled\<close> to \<open>False\<close>, \<open>max_gap\<close> to \<open>0\<close> and
  \<open>stash_name\<close> to the empty string, on a base that has a \<open>stash_name\<close>.\<close>

theorem apply_override_scalar_fields_witness:
  "markers_enabled
     (apply_override (base_settings\<lparr>stash_name := Some ''Cat_AI''\<rparr>)
        (empty_override\<lparr>ov_stash_name := Some [], ov_markers_enabled := Some False,
                         ov_max_gap := Some (0 :: real)\<rparr>)) = False
   \<and> max_gap
     (apply_override (base_settings\<lparr>stash_name := Some ''Cat_AI''\<rparr>)
        (empty_override\<lparr>ov_stash_name := Some [], ov_markers_enabled := Some False,
                         ov_max_gap := Some (0 :: real)\<rparr>)) = Some 0
   \<and> stash_name
     (apply_override (base_settings\<lparr>stash_name := Some ''Cat_AI''\<rparr>)
        (empty_override\<lparr>ov_stash_name := Some [], ov_markers_enabled := Some False,
                         ov_max_gap := Some (0 :: real)\<rparr>)) = None
   \<and> scene_tag_enabled
     (apply_override (base_settings\<lparr>stash_name := Some ''Cat_AI''\<rparr>)
        (empty_override\<lparr>ov_stash_name := Some [], ov_markers_enabled := Some False,
                         ov_max_gap := Some (0 :: real)\<rparr>)) = True"
  using apply_override_scalar_fields
          [of "base_settings\<lparr>stash_name := Some ''Cat_AI''\<rparr>"
              "empty_override\<lparr>ov_stash_name := Some [], ov_markers_enabled := Some False,
                               ov_max_gap := Some (0 :: real)\<rparr>"]
  by (simp add: base_settings_def empty_override_def)

text \<open>
  Claim C5. In \<open>apply_override\<close> the five positions of \<open>merge_params\<close> merge
  independently: each position of the result is the override's value at that position
  when it is not \<open>None\<close> and the base's value at that position otherwise. In particular an
  override with only index 2 set leaves the indices 0, 1, 3 and 4 as in the base.
\<close>

theorem apply_override_merge_params_positions:
  assumes "merge_params base = (b0, b1, b2, b3, b4)"
    and "ov_merge_params ov = (o0, o1, o2, o3, o4)"
  shows "merge_params (apply_override base ov) =
           (case o0 of None \<Rightarrow> b0 | Some x \<Rightarrow> Some x,
            case o1 of None \<Rightarrow> b1 | Some x \<Rightarrow> Some x,
            case o2 of None \<Rightarrow> b2 | Some x \<Rightarrow> Some x,
            case o3 of None \<Rightarrow> b3 | Some x \<Rightarrow> Some x,
            case o4 of None \<Rightarrow> b4 | Some x \<Rightarrow> Some x)"
proof -
  have "merge_params (apply_override base ov) =
          list_tuple (merge_positions [o0, o1, o2, o3, o4] [b0, b1, b2, b3, b4])"
    using assms by (simp add: apply_override_merge_params tuple_list_def)
  then show ?thesis
    by (simp only: merge_positions_five) (simp add: list_tuple_def)
qed

text \<open>A base with all five positions set, and an override with only index 2 set.\<close>

theorem apply_override_merge_params_positions_witness:
  "merge_params
     (apply_override
        (base_settings\<lparr>merge_params := (Some 1, Some 2, Some 3, Some 4, Some (5 :: real))\<rparr>)
        (empty_override\<lparr>ov_merge_params := (None, None, Some 9, None, None)\<rparr>))
   = (Some 1, Some 2, Some 9, Some 4, Some 5)"
  using apply_override_merge_params_positions
          [of "base_settings\<lparr>merge_params := (Some 1, Some 2, Some 3, Some 4, Some (5 :: real))\<rparr>"
              "Some 1" "Some 2" "Some 3" "Some 4" "Some 5"
              "empty_override\<lparr>ov_merge_params := (None, None, Some 9, None, None)\<rparr>"
              None None "Some 9" None None]
  by simp

subsection \<open>Resolution\<close>

text \<open>\<open>resolve\<close> creates one object, at the first free address, and writes to no other.\<close>

lemma resolve_address: "fst (resolve self t h) = length h"
  by (simp add: resolve_def alloc_def Let_def)

lemma resolve_length: "length (snd (resolve self t h)) = Suc (length h)"
  by (simp add: resolve_def alloc_def apply_override_at_def Let_def split: option.splits)

lemma resolve_frame: "i < length h \<Longrightarrow> snd (resolve self t h) ! i = h ! i"
  by (simp add: resolve_def alloc_def apply_override_at_def Let_def nth_append
        split: option.splits)

lemma resolve_take: "take (length h) (snd (resolve self t h)) = h"
  by (rule nth_equalityI) (simp_all add: resolve_length resolve_frame)

text \<open>The object that \<open>resolve\<close> returns, as a function of the baseline object.\<close>

lemma resolve_object:
  "snd (resolve self t h) ! length h =
     (let normalized = strip (case t of None \<Rightarrow> [] | Some s \<Rightarrow> s);
          g = h ! global_settings self;
          e = g\<lparr>tag_name := (if normalized \<noteq> [] then normalized else tag_name g)\<rparr>;
          e = (case (if normalized \<noteq> [] then map_of (overrides self) (lower normalized)
                     else None) of
                 None \<Rightarrow> e
               | Some ov \<Rightarrow> apply_override e ov);
          e = (if stash_name e = None \<or> stash_name e = Some []
               then e\<lparr>stash_name :=
                        Some (if normalized \<noteq> [] then normalized @ tag_suffix self
                              else normalized)\<rparr>
               else e);
          e = (if merge_strategy e = [] then e\<lparr>merge_strategy := ''default''\<rparr> else e)
      in e)"
  by (simp add: resolve_def alloc_def apply_override_at_def Let_def split: option.splits)

lemma lower_Blonde: "lower ''Blonde'' = ''blonde''"
  by code_simp

lemma strip_Blonde: "strip '' Blonde '' = ''Blonde''"
  by (simp add: strip_def isspace_def)

text \<open>
  Claim C2, as amended. For every snapshot and every input \<open>t\<close>, the settings that
  \<open>resolve\<close> returns have a non-empty \<open>stash_name\<close> whenever the trimmed input is
  non-empty, and a non-empty \<open>merge_strategy\<close>. (The claim as stated asks for a non-empty
  \<open>stash_name\<close> whenever the \<open>tag_name\<close> of the result is non-empty; on a blank input the
  result takes the \<open>tag_name\<close> of the baseline while its \<open>stash_name\<close> is the empty
  string.)
\<close>

theorem resolve_names_nonempty:
  "case resolve self t h of
     (a, h') \<Rightarrow>
       (strip (case t of None \<Rightarrow> [] | Some s \<Rightarrow> s) \<noteq> [] \<longrightarrow>
          stash_name (h' ! a) \<noteq> None \<and> stash_name (h' ! a) \<noteq> Some [])
       \<and> merge_strategy (h' ! a) \<noteq> []"
proof -
  obtain a h' where r: "resolve self t h = (a, h')"
    by (cases "resolve self t h")
  have a: "a = length h"
    using resolve_address [of self t h] r by simp
  have obj: "h' ! a = snd (resolve self t h) ! length h"
    using r a by simp
  have "merge_strategy (h' ! a) \<noteq> []"
    unfolding obj resolve_object by (simp add: Let_def)
  moreover have "stash_name (h' ! a) \<noteq> None \<and> stash_name (h' ! a) \<noteq> Some []"
    if "strip (case t of None \<Rightarrow> [] | Some s \<Rightarrow> s) \<noteq> []"
    unfolding obj resolve_object using that by (simp add: Let_def)
  ultimately show ?thesis
    using r by simp
qed

text \<open>The baseline with markers disabled and an override that enables images for
  \<open>blonde\<close>, resolved for \<open>'' Blonde ''\<close>.\<close>

theorem resolve_names_nonempty_witness:
  "strip '' Blonde '' \<noteq> []
   \<and> (case resolve
             \<lparr>source_path = ''/plugin/tag_settings.csv'', global_settings = 0,
                overrides = [(''blonde'', empty_override\<lparr>ov_image_enabled := Some True\<rparr>)],
                tag_suffix = ''_AI''\<rparr>
             (Some '' Blonde '')
             [base_settings\<lparr>markers_enabled := False\<rparr> :: real TagSettings] of
        (a, h') \<Rightarrow>
          stash_name (h' ! a) = Some ''Blonde_AI''
          \<and> merge_strategy (h' ! a) = ''default''
          \<and> image_enabled (h' ! a)
          \<and> \<not> markers_enabled (h' ! a))"
  using resolve_names_nonempty
          [where self = "\<lparr>source_path = ''/plugin/tag_settings.csv'', global_settings = 0,
                 overrides = [(''blonde'', empty_override\<lparr>ov_image_enabled := Some True\<rparr>)],
                 tag_suffix = ''_AI''\<rparr>"
             and t = "Some '' Blonde ''"
             and h = "[base_settings\<lparr>markers_enabled := False\<rparr> :: real TagSettings]"]
  by (simp add: resolve_def alloc_def apply_override_at_def apply_override_def Let_def
        strip_Blonde lower_Blonde base_settings_def empty_override_def tuple_list_def
        list_tuple_def merge_positions_def)

text \<open>The claim as stated fails on the snapshot that \<open>load\<close> returns when there is neither
  a configuration file nor a template, at a blank input: the result has the \<open>tag_name\<close>
  of the baseline, which is not empty, and an empty \<open>stash_name\<close>.\<close>

theorem resolve_names_nonempty_counterexample:
  "case load (\<lambda>s. None :: real option)
          \<lparr>plugin_root = ''/plugin'', files = Map.empty, copy_succeeds = True,
             suffix_lookup = NoRow\<rparr> None [] of
     (cfg, h) \<Rightarrow>
       (case resolve cfg (Some ''  '') h of
          (a, h') \<Rightarrow> tag_name (h' ! a) = ''__global__'' \<and> stash_name (h' ! a) = Some [])"
  by (simp add: load_def resolve_def alloc_def Let_def get_tag_suffix_def base_settings_def
        strip_def isspace_def)

text \<open>
  Claim C3, as amended. In \<open>resolve\<close>, when the trimmed input is empty the \<open>tag_name\<close> of
  the result is the baseline's own \<open>tag_name\<close>; and whenever \<open>stash_name\<close> is still
  \<open>None\<close> or empty after the override step, it is set from the trimmed input, not from
  that effective name: to the trimmed input followed by the tag suffix when the trimmed
  input is non-empty, and to the empty string when the trimmed input is empty.
\<close>

theorem resolve_effective_name:
  "case resolve self t h of
     (a, h') \<Rightarrow>
       (let normalized = strip (case t of None \<Rightarrow> [] | Some s \<Rightarrow> s);
            g = h ! global_settings self;
            clone = g\<lparr>tag_name := (if normalized = [] then tag_name g else normalized)\<rparr>;
            after_override =
              (case (if normalized = [] then None
                     else map_of (overrides self) (lower normalized)) of
                 None \<Rightarrow> clone
               | Some ov \<Rightarrow> apply_override clone ov)
        in tag_name (h' ! a) = (if normalized = [] then tag_name g else normalized)
           \<and> stash_name (h' ! a) =
               (if stash_name after_override = None \<or> stash_name after_override = Some []
                then Some (if normalized = [] then [] else normalized @ tag_suffix self)
                else stash_name after_override))"
proof -
  obtain a h' where r: "resolve self t h = (a, h')"
    by (cases "resolve self t h")
  define e where "e = snd (resolve self t h) ! length h"
  have obj: "h' ! a = e"
    using resolve_address [of self t h] r by (simp add: e_def)
  have "let normalized = strip (case t of None \<Rightarrow> [] | Some s \<Rightarrow> s);
            g = h ! global_settings self;
            clone = g\<lparr>tag_name := (if normalized = [] then tag_name g else normalized)\<rparr>;
            after_override =
              (case (if normalized = [] then None
                     else map_of (overrides self) (lower normalized)) of
                 None \<Rightarrow> clone
               | Some ov \<Rightarrow> apply_override clone ov)
        in tag_name e = (if normalized = [] then tag_name g else normalized)
           \<and> stash_name e =
               (if stash_name after_override = None \<or> stash_name after_override = Some []
                then Some (if normalized = [] then [] else normalized @ tag_suffix self)
                else stash_name after_override)"
    unfolding e_def resolve_object
    by (simp add: Let_def apply_override_tag_name split: option.splits)
  then show ?thesis
    unfolding r prod.case obj .
qed

text \<open>A baseline without \<open>stash_name\<close> and no override: the name \<open>''Redhead''\<close> gets the
  suffix, the absent name \<open>None\<close> gets the baseline's \<open>tag_name\<close> and an empty
  \<open>stash_name\<close>.\<close>

theorem resolve_effective_name_witness:
  "(case resolve \<lparr>source_path = ''/plugin/tag_settings.csv'', global_settings = 0,
                   overrides = [], tag_suffix = ''_AI''\<rparr>
           (Some ''Redhead'') [base_settings :: real TagSettings] of
      (a, h') \<Rightarrow> tag_name (h' ! a) = ''Redhead'' \<and> stash_name (h' ! a) = Some ''Redhead_AI'')
   \<and> (case resolve \<lparr>source_path = ''/plugin/tag_settings.csv'', global_settings = 0,
                     overrides = [], tag_suffix = ''_AI''\<rparr>
             None [base_settings :: real TagSettings] of
        (a, h') \<Rightarrow> tag_name (h' ! a) = ''__global__'' \<and> stash_name (h' ! a) = Some [])"
  using resolve_effective_name
          [where self = "\<lparr>source_path = ''/plugin/tag_settings.csv'', global_settings = 0,
                 overrides = [], tag_suffix = ''_AI''\<rparr>"
             and t = "Some ''Redhead''" and h = "[base_settings :: real TagSettings]"]
        resolve_effective_name
          [where self = "\<lparr>source_path = ''/plugin/tag_settings.csv'', global_settings = 0,
                 overrides = [], tag_suffix = ''_AI''\<rparr>"
             and t = None and h = "[base_settings :: real TagSettings]"]
  by (simp add: Let_def strip_def isspace_def base_settings_def split: prod.splits)

text \<open>The claim as stated fails at the empty input on the default snapshot: the effective
  name is \<open>''__global__''\<close>, which is not empty, and yet \<open>stash_name\<close> is left empty
  instead of being that name followed by the suffix.\<close>

theorem resolve_effective_name_counterexample:
  "case resolve \<lparr>source_path = ''/plugin/tag_settings.csv'', global_settings = 0,
                  overrides = [], tag_suffix = ''_AI''\<rparr>
          (Some []) [base_settings :: real TagSettings] of
     (a, h') \<Rightarrow>
       tag_name (h' ! a) = ''__global__''
       \<and> stash_name (h' ! a) = Some []
       \<and> stash_name (h' ! a) \<noteq> Some (tag_name (h' ! a) @ ''_AI'')"
  by (simp add: resolve_def alloc_def Let_def base_settings_def strip_def)

text \<open>
  Claim C9. \<open>resolve\<close> is pure with respect to the snapshot: two calls with the same
  input return objects that are equal field for field (the first result is not disturbed
  by the second call), and every object that existed before a call, the snapshot's global
  settings among them, is unchanged after it. The other attributes of the snapshot (the
  overrides, the tag suffix, the source path) are only read: \<open>resolve\<close> has no assignment
  to them, so the model passes them by value.
\<close>

theorem resolve_pure:
  assumes "global_settings self < length h"
  shows "case resolve self t h of
           (a1, h1) \<Rightarrow>
             (case resolve self t h1 of
                (a2, h2) \<Rightarrow>
                  h2 ! a2 = h1 ! a1
                  \<and> h2 ! a1 = h1 ! a1
                  \<and> take (length h) h1 = h
                  \<and> take (length h) h2 = h
                  \<and> h1 ! global_settings self = h ! global_settings self
                  \<and> h2 ! global_settings self = h ! global_settings self)"
proof -
  obtain a1 h1 where r1: "resolve self t h = (a1, h1)"
    by (cases "resolve self t h")
  obtain a2 h2 where r2: "resolve self t h1 = (a2, h2)"
    by (cases "resolve self t h1")
  have a1: "a1 = length h" and h1: "h1 = snd (resolve self t h)"
    using resolve_address [of self t h] r1 by simp_all
  have a2: "a2 = length h1" and h2: "h2 = snd (resolve self t h1)"
    using resolve_address [of self t h1] r2 by simp_all
  have len1: "length h1 = Suc (length h)"
    by (simp add: h1 resolve_length)
  have g1: "h1 ! global_settings self = h ! global_settings self"
    using assms by (simp add: h1 resolve_frame)
  have g2: "h2 ! global_settings self = h1 ! global_settings self"
    using assms len1 by (simp add: h2 resolve_frame)
  have t1: "take (length h) h1 = h"
    by (simp add: h1 resolve_take)
  have "take (length h) (take (length h1) h2) = take (length h) h1"
    by (simp only: h2 resolve_take)
  then have t2: "take (length h) h2 = h"
    using t1 len1 by (simp add: min_def)
  have same: "h2 ! a2 = h1 ! a1"
    unfolding a1 a2 h2 resolve_object unfolding h1 resolve_object
    using g1 unfolding h1 by simp
  have keep: "h2 ! a1 = h1 ! a1"
    using len1 by (simp add: a1 h2 resolve_frame)
  show ?thesis
    using r1 r2 same keep t1 t2 g1 g2 by simp
qed

text \<open>A snapshot with an override for \<open>blonde\<close>, so that the in-place merge runs on the
  clone; the baseline object at address 0 is the same after both calls.\<close>

theorem resolve_pure_witness:
  "case resolve
          \<lparr>source_path = ''/plugin/tag_settings.csv'', global_settings = 0,
             overrides = [(''blonde'', empty_override\<lparr>ov_image_enabled := Some True\<rparr>)],
             tag_suffix = ''_AI''\<rparr>
          (Some ''Blonde'') [base_settings :: real TagSettings] of
     (a1, h1) \<Rightarrow>
       (case resolve
               \<lparr>source_path = ''/plugin/tag_settings.csv'', global_settings = 0,
                  overrides = [(''blonde'', empty_override\<lparr>ov_image_enabled := Some True\<rparr>)],
                  tag_suffix = ''_AI''\<rparr>
               (Some ''Blonde'') h1 of
          (a2, h2) \<Rightarrow>
            h2 ! a2 = h1 ! a1
            \<and> h2 ! a1 = h1 ! a1
            \<and> take 1 h1 = [base_settings]
            \<and> take 1 h2 = [base_settings]
            \<and> h1 ! 0 = base_settings
            \<and> h2 ! 0 = base_settings)"
  using resolve_pure
          [where self = "\<lparr>source_path = ''/plugin/tag_settings.csv'', global_settings = 0,
                 overrides = [(''blonde'', empty_override\<lparr>ov_image_enabled := Some True\<rparr>)],
                 tag_suffix = ''_AI''\<rparr>"
             and h = "[base_settings :: real TagSettings]" and t = "Some ''Blonde''"]
  by (simp split: prod.splits)

subsection \<open>Row parser\<close>

lemma strip_Nil: "strip [] = []"
  by (simp add: strip_def)

lemma strip_blank:
  assumes "\<forall>c \<in> set s. isspace c"
  shows "strip s = []"
proof -
  have d: "dropWhile isspace s = []"
    using assms by (induction s) simp_all
  show ?thesis
    unfolding strip_def d by simp
qed

lemma set_update_subset: "set (AList.update k v al) \<subseteq> insert (k, v) (set al)"
  by (induction al) auto

lemma normalize_fold_values:
  "(k, v) \<in> set (fold (\<lambda>(key, v) normalized.
             case key of
               None \<Rightarrow> normalized
             | Some k \<Rightarrow> AList.update (normalize_key k) (map_option strip v) normalized) raw acc)
   \<Longrightarrow> (k, v) \<in> set acc \<or> (\<exists>key v'. (key, v') \<in> set raw \<and> v = map_option strip v')"
proof (induction raw arbitrary: acc)
  case Nil
  then show ?case by simp
next
  case (Cons p raw)
  obtain key c where p: "p = (key, c)" by (cases p)
  show ?case
  proof (cases key)
    case None
    with Cons p show ?thesis by fastforce
  next
    case (Some k')
    from Cons.prems have "(k, v) \<in> set (fold (\<lambda>(key, v) normalized.
             case key of
               None \<Rightarrow> normalized
             | Some k \<Rightarrow> AList.update (normalize_key k) (map_option strip v) normalized) raw
               (AList.update (normalize_key k') (map_option strip c) acc))"
      by (simp add: p Some)
    from Cons.IH [OF this] show ?thesis
      using set_update_subset [of "normalize_key k'" "map_option strip c" acc] p
      by auto
  qed
qed

lemma normalize_row_values:
  "(k, v) \<in> set (normalize_row raw) \<Longrightarrow> \<exists>key v'. (key, v') \<in> set raw \<and> v = map_option strip v'"
  unfolding normalize_row_def using normalize_fold_values [of k v raw "[]"] by simp

lemma blank_cells_is_blank:
  assumes "\<forall>(key, v) \<in> set raw_row. \<forall>s. v = Some s \<longrightarrow> (\<forall>c \<in> set s. isspace c)"
  shows "is_blank (normalize_row raw_row)"
proof -
  have "case v of None \<Rightarrow> True | Some s \<Rightarrow> strip s = []" if "(k, v) \<in> set (normalize_row raw_row)" for k v
  proof -
    from normalize_row_values [OF that] obtain key v' where
      m: "(key, v') \<in> set raw_row" and v: "v = map_option strip v'" by blast
    show ?thesis
    proof (cases v')
      case None
      then show ?thesis by (simp add: v)
    next
      case (Some s)
      with assms m have "\<forall>c \<in> set s. isspace c" by fastforce
      then have "strip s = []" by (rule strip_blank)
      then show ?thesis by (simp add: v Some strip_Nil)
    qed
  qed
  then show ?thesis
    by (fastforce simp: is_blank_def list_ex_iff split: option.splits)
qed

lemma parse_row_number: "parse_row to_float n raw_row = parse_row to_float m raw_row"
  by (simp add: parse_row_def)

lemma parse_row_blank: "is_blank (normalize_row raw_row) \<Longrightarrow> parse_row to_float n raw_row = (None, None)"
  by (simp add: parse_row_def)

lemma parse_row_fst:
  "\<not> is_blank (normalize_row raw_row) \<Longrightarrow>
   fst (parse_row to_float n raw_row) =
     (if tag_value_of (normalize_row raw_row) \<in> {[], ''*'', ''default'', ''__default__''} then None
      else Some (lower (tag_value_of (normalize_row raw_row))))"
  by (simp add: parse_row_def Let_def)

lemma parse_row_snd:
  "\<not> is_blank (normalize_row raw_row) \<Longrightarrow> snd (parse_row to_float n raw_row) \<noteq> None"
  by (simp add: parse_row_def Let_def)

lemma Default_row_not_blank:
  "\<not> is_blank (normalize_row [(Some ''TagName'', Some ''Default''), (Some ''ImageEnabled'', Some ''yes'')])"
  by code_simp

lemma Default_row_tag_value:
  "tag_value_of (normalize_row [(Some ''TagName'', Some ''Default''), (Some ''ImageEnabled'', Some ''yes'')]) = ''Default''"
  by code_simp

lemma lower_Default: "lower ''Default'' = ''default''"
  by code_simp

text \<open>
  Claim C6. For every non-blank row, the row parser targets the global baseline (the tag
  key is \<open>None\<close>) exactly when the tag cell, after trimming, is empty or is, case
  sensitively, one of \<open>''*''\<close>, \<open>''default''\<close>, \<open>''__default__''\<close>; for any other tag cell the
  key is the tag text in lower case. So the cell \<open>''Default''\<close> gives the key
  \<open>''default''\<close> of a specific tag, not the global baseline.
\<close>

theorem parse_row_tag_key:
  assumes "\<not> is_blank (normalize_row raw_row)"
  shows "fst (parse_row to_float n raw_row) =
           (if tag_value_of (normalize_row raw_row) \<in> {[], ''*'', ''default'', ''__default__''}
            then None
            else Some (lower (tag_value_of (normalize_row raw_row))))
         \<and> snd (parse_row to_float n raw_row) \<noteq> None"
  using assms by (simp add: parse_row_fst parse_row_snd)

text \<open>The row whose tag cell is \<open>''Default''\<close>.\<close>

theorem parse_row_tag_key_witness:
  "\<not> is_blank (normalize_row [(Some ''TagName'', Some ''Default''), (Some ''ImageEnabled'', Some ''yes'')])
   \<and> fst (parse_row (\<lambda>s. None :: real option) 2
            [(Some ''TagName'', Some ''Default''), (Some ''ImageEnabled'', Some ''yes'')]) = Some ''default''"
  using parse_row_tag_key
          [where raw_row = "[(Some ''TagName'', Some ''Default''), (Some ''ImageEnabled'', Some ''yes'')]"
             and to_float = "\<lambda>s. None :: real option" and n = 2]
        Default_row_not_blank
  by (simp add: Default_row_tag_value lower_Default)

subsection \<open>The loop of the loader\<close>

text \<open>The row number is used for diagnostics only, so a row may be parsed under any
  number \<open>m\<close>.\<close>

lemma load_rows_Yield:
  "load_rows to_float n (Yield r # events) g (h, ovs) =
     (case parse_row to_float m r of
        (tag_key, None) \<Rightarrow> load_rows to_float (n + 1) events g (h, ovs)
      | (None, Some override) \<Rightarrow>
          load_rows to_float (n + 1) events g (apply_override_at g override h, ovs)
      | (Some k, Some override) \<Rightarrow>
          load_rows to_float (n + 1) events g (h, AList.update k override ovs))"
  using parse_row_number [of to_float n r m] by simp

lemma load_rows_append:
  "load_rows to_float n (map Yield (xs @ ys)) g st =
     load_rows to_float (n + length xs) (map Yield ys) g
       (snd (load_rows to_float n (map Yield xs) g st))"
proof (induction xs arbitrary: n st)
  case Nil
  then show ?case by simp
next
  case (Cons r xs)
  obtain h ovs where st: "st = (h, ovs)" by (cases st)
  show ?case
    using Cons.IH by (simp add: st split: prod.splits option.splits)
qed

lemma load_rows_completed:
  "fst (load_rows to_float n (map Yield xs) g st) = Completed"
proof (induction xs arbitrary: n st)
  case Nil
  then show ?case by simp
next
  case (Cons r xs)
  obtain h ovs where st: "st = (h, ovs)" by (cases st)
  show ?case
    by (simp add: st Cons.IH split: prod.splits option.splits)
qed

lemma apply_override_at_update:
  "g < length h \<Longrightarrow> apply_override_at g ov (h[g := x]) = h[g := apply_override x ov]"
  by (simp add: apply_override_at_def)

lemma load_rows_heap:
  "g < length h \<Longrightarrow>
   fst (snd (load_rows to_float n (map Yield xs) g (h[g := x], ovs))) =
     h[g := foldl apply_override x
              (concat (map (\<lambda>r. case parse_row to_float m r of
                                   (None, Some ov) \<Rightarrow> [ov] | _ \<Rightarrow> []) xs))]"
proof (induction xs arbitrary: n x ovs)
  case Nil
  then show ?case by simp
next
  case (Cons r xs)
  show ?case
    using Cons.prems
    by (simp add: load_rows_Yield [where m = m] Cons.IH apply_override_at_update
          del: load_rows.simps(3) split: prod.splits option.splits)
qed

lemma load_rows_other_keys:
  "\<forall>r \<in> set xs. fst (parse_row to_float m r) \<noteq> Some k \<Longrightarrow>
   map_of (snd (snd (load_rows to_float n (map Yield xs) g (h, ovs)))) k = map_of ovs k"
proof (induction xs arbitrary: n h ovs)
  case Nil
  then show ?case by simp
next
  case (Cons r xs)
  then show ?case
    by (auto simp add: load_rows_Yield [where m = m] update_conv'
          simp del: load_rows.simps(3) split: prod.splits option.splits)
qed

text \<open>
  Claim C8. A row whose cells are all empty or white space gives no fragment (the row
  parser returns \<open>(None, None)\<close>), and the loop of the loader goes on to the next row with
  the global baseline and the overrides as they were.
\<close>

theorem blank_row_skipped:
  assumes "\<forall>(key, v) \<in> set raw_row. \<forall>s. v = Some s \<longrightarrow> (\<forall>c \<in> set s. isspace c)"
  shows "parse_row to_float n raw_row = (None, None)
         \<and> load_rows to_float n (Yield raw_row # events) g (h, ovs) =
             load_rows to_float (n + 1) events g (h, ovs)
         \<and> load_rows to_float n [Yield raw_row] g (h, ovs) = (Completed, h, ovs)"
proof -
  have "parse_row to_float n raw_row = (None, None)"
    using assms by (intro parse_row_blank blank_cells_is_blank)
  then show ?thesis
    by simp
qed

text \<open>A row of a blank tag cell, an empty cell and a missing cell.\<close>

theorem blank_row_skipped_witness:
  "parse_row (\<lambda>s. None :: real option) 3
     [(Some ''TagName'', Some ''  ''), (Some ''StashName'', Some []), (Some ''ImageEnabled'', None)]
     = (None, None)
   \<and> load_rows (\<lambda>s. None :: real option) 3
       [Yield [(Some ''TagName'', Some ''  ''), (Some ''StashName'', Some []),
               (Some ''ImageEnabled'', None)]]
       0 ([base_settings], [(''cat'', empty_override)])
     = (Completed, [base_settings], [(''cat'', empty_override)])"
  using blank_row_skipped
          [where raw_row = "[(Some ''TagName'', Some ''  ''), (Some ''StashName'', Some []),
                             (Some ''ImageEnabled'', None)]"
             and to_float = "\<lambda>s. None :: real option" and n = 3 and g = 0
             and h = "[base_settings]" and ovs = "[(''cat'', empty_override)]" and events = "[]"]
  by (simp add: isspace_def)

lemma row_star:
  "parse_row (\<lambda>s. None :: real option) 0
     [(Some ''TagName'', Some ''*''), (Some ''StashName'', Some []),
      (Some ''MarkersEnabled'', Some ''false''), (Some ''ImageEnabled'', Some ''true'')]
   = (None, Some (empty_override\<lparr>ov_markers_enabled := Some False, ov_image_enabled := Some True\<rparr>))"
  by code_simp

lemma row_Cat:
  "parse_row (\<lambda>s. None :: real option) 0
     [(Some ''TagName'', Some ''Cat''), (Some ''StashName'', Some ''Kitty''),
      (Some ''MarkersEnabled'', Some []), (Some ''ImageEnabled'', Some ''true'')]
   = (Some ''cat'', Some (empty_override\<lparr>ov_stash_name := Some ''Kitty'', ov_image_enabled := Some True\<rparr>))"
  by code_simp

lemma row_CAT:
  "parse_row (\<lambda>s. None :: real option) 0
     [(Some ''TagName'', Some ''CAT''), (Some ''StashName'', Some []),
      (Some ''MarkersEnabled'', Some ''false''), (Some ''ImageEnabled'', Some [])]
   = (Some ''cat'', Some (empty_override\<lparr>ov_markers_enabled := Some False\<rparr>))"
  by code_simp

lemma row_default:
  "parse_row (\<lambda>s. None :: real option) 0
     [(Some ''TagName'', Some ''default''), (Some ''StashName'', Some []),
      (Some ''MarkersEnabled'', Some []), (Some ''ImageEnabled'', Some ''false'')]
   = (None, Some (empty_override\<lparr>ov_image_enabled := Some False\<rparr>))"
  by code_simp

text \<open>
  Claim C7. During the load, when several rows give the same tag key (spellings that
  differ in case included), the override stored for the key is the parse of the last such
  row alone: \<open>r\<close> is a row for the key \<open>k\<close> and no later row is, whatever the earlier rows
  \<open>pre\<close> are. The default rows fold onto the global baseline one after the other, in the
  order of the file, each by \<open>apply_override\<close>, so that a later row wins field by field.
\<close>

theorem load_rows_last_row_wins:
  assumes "g < length h"
    and "parse_row to_float m r = (Some k, Some ov)"
    and "\<forall>r' \<in> set post. fst (parse_row to_float m r') \<noteq> Some k"
  shows "case load_rows to_float n (map Yield (pre @ r # post)) g (h, ovs) of
           (out, h', ovs') \<Rightarrow>
             out = Completed
             \<and> map_of ovs' k = Some ov
             \<and> h' ! g =
                 foldl apply_override (h ! g)
                   (concat (map (\<lambda>r. case parse_row to_float m r of
                                        (None, Some ov) \<Rightarrow> [ov] | _ \<Rightarrow> [])
                              (pre @ r # post)))"
proof -
  obtain out h' ovs' where res:
    "load_rows to_float n (map Yield (pre @ r # post)) g (h, ovs) = (out, h', ovs')"
    by (cases "load_rows to_float n (map Yield (pre @ r # post)) g (h, ovs)")
  have out: "out = Completed"
    using load_rows_completed [of to_float n "pre @ r # post" g "(h, ovs)"] res by simp
  obtain o1 h1 ovs1 where pre: "load_rows to_float n (map Yield pre) g (h, ovs) = (o1, h1, ovs1)"
    by (cases "load_rows to_float n (map Yield pre) g (h, ovs)")
  have "load_rows to_float n (map Yield (pre @ r # post)) g (h, ovs) =
          load_rows to_float (n + length pre) (map Yield (r # post)) g (h1, ovs1)"
    by (simp only: load_rows_append pre snd_conv)
  also have "\<dots> = load_rows to_float (n + length pre + 1) (map Yield post) g
                     (h1, AList.update k ov ovs1)"
    using assms(2) by (simp add: load_rows_Yield [where m = m] del: load_rows.simps(3))
  finally have "ovs' = snd (snd (load_rows to_float (n + length pre + 1) (map Yield post) g
                                  (h1, AList.update k ov ovs1)))"
    using res by simp
  then have key: "map_of ovs' k = Some ov"
    using load_rows_other_keys [OF assms(3)] by (simp add: update_conv')
  have "h' = fst (snd (load_rows to_float n (map Yield (pre @ r # post)) g (h[g := h ! g], ovs)))"
    using res by simp
  then have heap: "h' ! g =
      foldl apply_override (h ! g)
        (concat (map (\<lambda>r. case parse_row to_float m r of (None, Some ov) \<Rightarrow> [ov] | _ \<Rightarrow> [])
                   (pre @ r # post)))"
    using assms(1) by (simp only: load_rows_heap [OF assms(1), where m = m]) simp
  show ?thesis
    using res out key heap by simp
qed

text \<open>Two default rows and the rows \<open>''Cat''\<close> and \<open>''CAT''\<close>: the override stored for
  \<open>''cat''\<close> has nothing of the first of them, and the baseline has \<open>markers_enabled\<close> of
  the first default row and \<open>image_enabled\<close> of the second.\<close>

theorem load_rows_last_row_wins_witness:
  "case load_rows (\<lambda>s. None :: real option) 2
          (map Yield
             [[(Some ''TagName'', Some ''*''), (Some ''StashName'', Some []),
               (Some ''MarkersEnabled'', Some ''false''), (Some ''ImageEnabled'', Some ''true'')],
              [(Some ''TagName'', Some ''Cat''), (Some ''StashName'', Some ''Kitty''),
               (Some ''MarkersEnabled'', Some []), (Some ''ImageEnabled'', Some ''true'')],
              [(Some ''TagName'', Some ''CAT''), (Some ''StashName'', Some []),
               (Some ''MarkersEnabled'', Some ''false''), (Some ''ImageEnabled'', Some [])],
              [(Some ''TagName'', Some ''default''), (Some ''StashName'', Some []),
               (Some ''MarkersEnabled'', Some []), (Some ''ImageEnabled'', Some ''false'')]])
          0 ([base_settings], []) of
     (out, h', ovs') \<Rightarrow>
       out = Completed
       \<and> map_of ovs' ''cat'' = Some (empty_override\<lparr>ov_markers_enabled := Some False\<rparr>)
       \<and> markers_enabled (h' ! 0) = False
       \<and> image_enabled (h' ! 0) = False
       \<and> scene_tag_enabled (h' ! 0) = True"
  using load_rows_last_row_wins
          [where to_float = "\<lambda>s. None :: real option" and m = 0 and n = 2 and g = 0
             and h = "[base_settings]" and ovs = "[]" and k = "''cat''"
             and ov = "empty_override\<lparr>ov_markers_enabled := Some False\<rparr>"
             and pre = "[[(Some ''TagName'', Some ''*''), (Some ''StashName'', Some []),
                          (Some ''MarkersEnabled'', Some ''false''), (Some ''ImageEnabled'', Some ''true'')],
                         [(Some ''TagName'', Some ''Cat''), (Some ''StashName'', Some ''Kitty''),
                          (Some ''MarkersEnabled'', Some []), (Some ''ImageEnabled'', Some ''true'')]]"
             and r = "[(Some ''TagName'', Some ''CAT''), (Some ''StashName'', Some []),
                       (Some ''MarkersEnabled'', Some ''false''), (Some ''ImageEnabled'', Some [])]"
             and post = "[[(Some ''TagName'', Some ''default''), (Some ''StashName'', Some []),
                           (Some ''MarkersEnabled'', Some []), (Some ''ImageEnabled'', Some ''false'')]]"]
  by (simp add: row_star row_Cat row_CAT row_default apply_override_markers_enabled
        apply_override_image_enabled apply_override_scene_tag_enabled
        base_settings_def empty_override_def
        del: load_rows.simps split: prod.splits)

subsection \<open>Configuration store\<close>

lemma get_plain_cached:
  "CONFIG_CACHE s = Some cfg \<Longrightarrow> get_tag_configuration to_float env False s = (cfg, s)"
  by (simp add: get_tag_configuration_def)

lemma get_plain_fold:
  "CONFIG_CACHE s = Some cfg \<Longrightarrow>
   fold (\<lambda>e st. snd (get_tag_configuration to_float e False st)) envs s = s"
  by (induction envs) (simp_all add: get_plain_cached)

lemma load_address: "global_settings (fst (load to_float env base_path h)) = length h"
  by (simp add: load_def alloc_def Let_def split: prod.splits option.splits csv_file.splits)

text \<open>
  Claim C10. The store as a sequential state machine: a call with \<open>reload\<close> returns the
  snapshot that \<open>load\<close> has just built and caches it; every later call without \<open>reload\<close>
  returns that snapshot and leaves the state as it is, whatever the files have become, so
  this holds for any number of such calls; and the snapshot is not the one cached before,
  its global settings being a new object.
\<close>

theorem reload_replaces_cache:
  assumes "get_tag_configuration to_float env True s = (cfg, s1)"
  shows "cfg = fst (load to_float env None (objects s))
         \<and> objects s1 = snd (load to_float env None (objects s))
         \<and> CONFIG_CACHE s1 = Some cfg
         \<and> (\<forall>env'. get_tag_configuration to_float env' False s1 = (cfg, s1))
         \<and> (\<forall>envs. fold (\<lambda>e st. snd (get_tag_configuration to_float e False st)) envs s1 = s1)
         \<and> (\<forall>old. CONFIG_CACHE s = Some old \<and> global_settings old < length (objects s)
                \<longrightarrow> cfg \<noteq> old)"
proof -
  have cfg: "cfg = fst (load to_float env None (objects s))"
    and s1: "s1 = \<lparr>CONFIG_CACHE = Some cfg, objects = snd (load to_float env None (objects s))\<rparr>"
    using assms by (auto simp add: get_tag_configuration_def split: prod.splits)
  have cache: "CONFIG_CACHE s1 = Some cfg"
    by (simp add: s1)
  have fresh: "global_settings cfg = length (objects s)"
    by (simp add: cfg load_address)
  show ?thesis
    using cfg cache fresh get_plain_cached [OF cache] get_plain_fold [OF cache]
    by (auto simp add: s1)
qed

text \<open>A store that holds an earlier snapshot; the reload finds no file, the later call
  finds one and does not read it.\<close>

theorem reload_replaces_cache_witness:
  "get_tag_configuration (\<lambda>s. None :: real option)
     \<lparr>plugin_root = ''/plugin'', files = Map.empty, copy_succeeds = False,
        suffix_lookup = NoRow\<rparr>
     True
     \<lparr>CONFIG_CACHE = Some \<lparr>source_path = ''/plugin/tag_settings.csv'', global_settings = 0,
                             overrides = [], tag_suffix = ''_X''\<rparr>,
        objects = [base_settings]\<rparr>
   = (\<lparr>source_path = ''/plugin/tag_settings.csv'', global_settings = 1,
        overrides = [], tag_suffix = ''_AI''\<rparr>,
      \<lparr>CONFIG_CACHE = Some \<lparr>source_path = ''/plugin/tag_settings.csv'', global_settings = 1,
                              overrides = [], tag_suffix = ''_AI''\<rparr>,
         objects = [base_settings, base_settings]\<rparr>)
   \<and> get_tag_configuration (\<lambda>s. None :: real option)
       \<lparr>plugin_root = ''/plugin'',
          files = [''/plugin/tag_settings.csv'' \<mapsto> Opened [Yield [(Some ''TagName'', Some ''Cat'')]]],
          copy_succeeds = False, suffix_lookup = NoRow\<rparr>
       False
       \<lparr>CONFIG_CACHE = Some \<lparr>source_path = ''/plugin/tag_settings.csv'', global_settings = 1,
                               overrides = [], tag_suffix = ''_AI''\<rparr>,
          objects = [base_settings, base_settings]\<rparr>
     = (\<lparr>source_path = ''/plugin/tag_settings.csv'', global_settings = 1,
          overrides = [], tag_suffix = ''_AI''\<rparr>,
        \<lparr>CONFIG_CACHE = Some \<lparr>source_path = ''/plugin/tag_settings.csv'', global_settings = 1,
                                overrides = [], tag_suffix = ''_AI''\<rparr>,
           objects = [base_settings, base_settings]\<rparr>)"
proof -
  have reload:
    "get_tag_configuration (\<lambda>s. None :: real option)
       \<lparr>plugin_root = ''/plugin'', files = Map.empty, copy_succeeds = False,
          suffix_lookup = NoRow\<rparr>
       True
       \<lparr>CONFIG_CACHE = Some \<lparr>source_path = ''/plugin/tag_settings.csv'', global_settings = 0,
                               overrides = [], tag_suffix = ''_X''\<rparr>,
          objects = [base_settings]\<rparr>
     = (\<lparr>source_path = ''/plugin/tag_settings.csv'', global_settings = 1,
          overrides = [], tag_suffix = ''_AI''\<rparr>,
        \<lparr>CONFIG_CACHE = Some \<lparr>source_path = ''/plugin/tag_settings.csv'', global_settings = 1,
                                overrides = [], tag_suffix = ''_AI''\<rparr>,
           objects = [base_settings, base_settings]\<rparr>)"
    by (simp add: get_tag_configuration_def load_def alloc_def Let_def get_tag_suffix_def
          path_join_def CONFIG_FILENAME_def TEMPLATE_FILENAME_def)
  from reload_replaces_cache [OF reload] reload show ?thesis
    by blast
qed

subsection \<open>The loader after an exception\<close>

text \<open>Where nothing was read before the exception, the result is the built-in defaults:
  the file does not open, or the reader raises at once.\<close>

lemma load_unreadable:
  assumes "files env (path_join (plugin_root env) CONFIG_FILENAME) = Some OpenFails
           \<or> (\<exists>events. files env (path_join (plugin_root env) CONFIG_FILENAME)
                          = Some (Opened (Raise # events)))"
  shows "load to_float env None h =
           (\<lparr>source_path = path_join (plugin_root env) CONFIG_FILENAME,
              global_settings = length h, overrides = [],
              tag_suffix = get_tag_suffix (suffix_lookup env)\<rparr>,
            h @ [base_settings])"
  using assms by (auto simp add: load_def alloc_def Let_def)

text \<open>
  Claim C1 says that after any exception while the file is opened, read or parsed,
  \<open>load\<close> returns the built-in defaults and no overrides. The loop mutates the global
  settings and the overrides in place and the \<^verbatim>\<open>except\<close> clause only logs, so the rows
  read before the exception stay: here a default row and a row for \<open>''Cat''\<close> are read,
  and the reader raises on the third row.
\<close>

theorem load_partial_after_exception:
  "case load (\<lambda>s. None :: real option)
          \<lparr>plugin_root = ''/plugin'',
             files = [''/plugin/tag_settings.csv'' \<mapsto>
                        Opened [Yield [(Some ''TagName'', Some ''*''),
                                       (Some ''MarkersEnabled'', Some ''false'')],
                                Yield [(Some ''TagName'', Some ''Cat''),
                                       (Some ''MarkersEnabled'', Some ''true'')],
                                Raise]],
             copy_succeeds = True, suffix_lookup = NoRow\<rparr> None [] of
     (cfg, h) \<Rightarrow>
       overrides cfg = [(''cat'', empty_override\<lparr>ov_markers_enabled := Some True\<rparr>)]
       \<and> markers_enabled (h ! global_settings cfg) = False
       \<and> h ! global_settings cfg \<noteq> base_settings"
  by code_simp

end
